theory Spec2Isabelle
  imports Complex_Main "HOL-Library.Multiset" "HOL-Library.Word" "HOL-Library.Product_Lexorder"
begin

section \<open>Tennis statistics: the analysis module\<close>

text \<open>
  A shallow embedding of \<^verbatim>\<open>analysis.py\<close>: the division helper, the loader, the
  per-match metrics, the season summary and the lookup by date.

  Conventions of the model.
  \<^item> A DataFrame is the list of its rows, in index order; a row is a record with one
    field per CSV column. The counter columns of a DataFrame are 64-bit integers
    (\<^verbatim>\<open>int64\<close>), so their sums wrap around. A single row handed to
    \<^verbatim>\<open>compute_match_metrics\<close> as a Series may hold any Python integer.
  \<^item> A Python float is NaN, an infinity, negative zero or a finite real number (\<open>Fin 0\<close>
    is positive zero). A quotient overflows to an infinity and underflows to a zero as
    a double does; within that range it is exact, rounding being left out.
  \<^item> A Python string is the list of its code points.
  \<^item> An exception is a value \<open>Inl e\<close> of the result type.
  \<^item> Library routines whose code is not part of the module are parameters: the date
    parsers \<^verbatim>\<open>pd.to_datetime\<close> (on a column and on one string), the row sort
    \<^verbatim>\<open>DataFrame.sort_values\<close> and the Unicode case mapping \<^verbatim>\<open>str.upper\<close>.
\<close>

subsection \<open>Values and errors\<close>

datatype py_error = ZeroDivisionError | OverflowError | ParseError | AttributeError | IndexError

datatype pyfloat = NaN | PInf | NInf | NZero | Fin real

datatype pynum = PyInt int | PyFloat pyfloat

type_synonym int64 = "64 word"

type_synonym pystr = "nat list"

text \<open>The string of an ASCII literal.\<close>

definition py_str :: "string \<Rightarrow> pystr" where
  "py_str s = map of_char s"

definition is_zero :: "pyfloat \<Rightarrow> bool" where
  "is_zero f = (f = Fin 0 \<or> f = NZero)"

definition is_inf :: "pyfloat \<Rightarrow> bool" where
  "is_inf f = (f = PInf \<or> f = NInf)"

fun sign_bit :: "pyfloat \<Rightarrow> bool" where
  "sign_bit NaN = False"
| "sign_bit PInf = False"
| "sign_bit NInf = True"
| "sign_bit NZero = True"
| "sign_bit (Fin x) = (x < 0)"

definition signed_zero :: "bool \<Rightarrow> pyfloat" where
  "signed_zero negative = (if negative then NZero else Fin 0)"

definition signed_inf :: "bool \<Rightarrow> pyfloat" where
  "signed_inf negative = (if negative then NInf else PInf)"

text \<open>
  \<^verbatim>\<open>float(x)\<close>: a float is returned as it is; an integer is converted, and the
  conversion raises OverflowError when the integer rounds to a magnitude beyond the
  largest double, that is from \<open>2^1024 - 2^970\<close> on.
\<close>

definition float_limit :: int where
  "float_limit = 2 ^ 1024 - 2 ^ 970"

fun py_float :: "pynum \<Rightarrow> py_error + pyfloat" where
  "py_float (PyFloat f) = Inr f"
| "py_float (PyInt i) = (if float_limit \<le> \<bar>i\<bar> then Inl OverflowError else Inr (Fin (of_int i)))"

text \<open>Truth value of a number in a condition: false for zero (of either sign), true otherwise.\<close>

fun truthy :: "pynum \<Rightarrow> bool" where
  "truthy (PyInt i) = (i \<noteq> 0)"
| "truthy (PyFloat f) = (\<not> is_zero f)"

text \<open>
  The float that an arithmetic result becomes: an infinity when its magnitude rounds
  beyond the largest double, a zero when it rounds below the smallest one, and the
  result itself otherwise.
\<close>

definition float_of_real :: "real \<Rightarrow> pyfloat" where
  "float_of_real q =
     (if of_int float_limit \<le> \<bar>q\<bar> then signed_inf (q < 0)
      else if \<bar>q\<bar> \<le> 1 / 2 ^ 1075 then signed_zero (q < 0)
      else Fin q)"

text \<open>
  The quotient of two floats whose divisor is not zero, by the rules of IEEE 754 for
  NaN, the infinities and the sign of a zero result.
\<close>

definition float_quotient :: "pyfloat \<Rightarrow> pyfloat \<Rightarrow> pyfloat" where
  "float_quotient a b =
     (if a = NaN \<or> b = NaN then NaN
      else if is_inf a then (if is_inf b then NaN else signed_inf (sign_bit a \<noteq> sign_bit b))
      else if is_inf b \<or> is_zero a then signed_zero (sign_bit a \<noteq> sign_bit b)
      else (case (a, b) of (Fin x, Fin y) \<Rightarrow> float_of_real (x / y) | _ \<Rightarrow> NaN))"

text \<open>The operator \<^verbatim>\<open>/\<close> on floats: it raises on a zero divisor.\<close>

definition py_truediv :: "pyfloat \<Rightarrow> pyfloat \<Rightarrow> py_error + pyfloat" where
  "py_truediv a b = (if is_zero b then Inl ZeroDivisionError else Inr (float_quotient a b))"

text \<open>Sequencing of two steps, the second of which runs only if the first did not raise.\<close>

definition and_then :: "'e + 'a \<Rightarrow> ('a \<Rightarrow> 'e + 'b) \<Rightarrow> 'e + 'b" where
  "and_then m f = (case m of Inl e \<Rightarrow> Inl e | Inr v \<Rightarrow> f v)"

subsection \<open>Safe division\<close>

text \<open>
  \<^verbatim>\<open>def _safe_div(numerator, denominator):
      return float(numerator) / float(denominator) if denominator else 0.0\<close>

  The condition is evaluated first; the two conversions and the division only when it
  is true.
\<close>

definition safe_div :: "pynum \<Rightarrow> pynum \<Rightarrow> py_error + pyfloat" where
  "safe_div numerator denominator =
     (if truthy denominator then
        and_then (py_float numerator) (\<lambda>a.
        and_then (py_float denominator) (\<lambda>b. py_truediv a b))
      else Inr (Fin 0))"

subsection \<open>Rows and tables\<close>

text \<open>
  A cell of the result column: text, a missing value (NaN), or a number. The date of a
  loaded row is a time stamp or the missing date NaT, which equals nothing, itself
  included.
\<close>

datatype cell = Text pystr | Missing | Number int

datatype 't pydate = NaT | Timestamp 't

fun date_eq :: "'t pydate \<Rightarrow> 't pydate \<Rightarrow> bool" where
  "date_eq (Timestamp a) (Timestamp b) = (a = b)"
| "date_eq _ _ = False"

record ('d, 'n) match_row =
  date :: 'd
  opponent :: string
  surface :: string
  result :: cell
  score :: string
  aces :: 'n
  double_faults :: 'n
  first_serve_in :: 'n
  first_serve_total :: 'n
  first_serve_points_won :: 'n
  first_serve_points_total :: 'n
  second_serve_points_won :: 'n
  second_serve_points_total :: 'n
  break_points_saved :: 'n
  break_points_faced :: 'n

text \<open>The same row with another value in its date column (of another type, possibly).\<close>

definition with_date :: "('a, 'n) match_row \<Rightarrow> 'd \<Rightarrow> ('d, 'n) match_row" where
  "with_date r d =
     \<lparr>date = d, opponent = opponent r, surface = surface r, result = result r,
      score = score r, aces = aces r, double_faults = double_faults r,
      first_serve_in = first_serve_in r, first_serve_total = first_serve_total r,
      first_serve_points_won = first_serve_points_won r,
      first_serve_points_total = first_serve_points_total r,
      second_serve_points_won = second_serve_points_won r,
      second_serve_points_total = second_serve_points_total r,
      break_points_saved = break_points_saved r,
      break_points_faced = break_points_faced r\<rparr>"

subsection \<open>Strings\<close>

text \<open>
  The code points that \<^verbatim>\<open>str.strip\<close> removes: those that Python counts as white space.
\<close>

definition py_isspace :: "nat \<Rightarrow> bool" where
  "py_isspace c =
     ((9 \<le> c \<and> c \<le> 13) \<or> (28 \<le> c \<and> c \<le> 32) \<or> c = 133 \<or> c = 160 \<or> c = 5760 \<or>
      (8192 \<le> c \<and> c \<le> 8202) \<or> c = 8232 \<or> c = 8233 \<or> c = 8239 \<or> c = 8287 \<or> c = 12288)"

definition str_strip :: "pystr \<Rightarrow> pystr" where
  "str_strip s = rev (dropWhile py_isspace (rev (dropWhile py_isspace s)))"

text \<open>
  A method of the \<^verbatim>\<open>.str\<close> accessor works cell by cell: on text it applies the string
  method, and any other cell becomes a missing value. The accessor itself exists only
  on a column of text: \<^verbatim>\<open>read_csv\<close> gives such a column when the table has no rows or
  some cell of the column is text, and on a column of numbers and empty cells the
  accessor raises AttributeError.
\<close>

fun str_method :: "(pystr \<Rightarrow> pystr) \<Rightarrow> cell \<Rightarrow> cell" where
  "str_method f (Text s) = Text (f s)"
| "str_method f _ = Missing"

fun is_Text :: "cell \<Rightarrow> bool" where
  "is_Text (Text s) = True"
| "is_Text _ = False"

definition str_accessor :: "cell list \<Rightarrow> py_error + cell list" where
  "str_accessor column =
     (if column = [] \<or> list_ex is_Text column then Inr column else Inl AttributeError)"

subsection \<open>Loading\<close>

text \<open>
  \<^verbatim>\<open>def load_matches(csv_path):
      df = pd.read_csv(csv_path)
      df["date"] = pd.to_datetime(df["date"], errors="raise")
      df["result"] = df["result"].str.upper().str.strip()
      return df.sort_values("date").reset_index(drop=True)\<close>

  The argument \<open>raw\<close> is the table that \<^verbatim>\<open>read_csv\<close> returns: its date cells are text or
  empty (\<open>None\<close>). The parser of the date column, the case mapping and the sort are the
  parameters \<open>to_datetime\<close>, \<open>upper\<close> and \<open>sort_values\<close>.
\<close>

definition load_matches ::
  "(string option list \<Rightarrow> py_error + 't pydate list) \<Rightarrow> (pystr \<Rightarrow> pystr) \<Rightarrow>
   (('t pydate, int64) match_row list \<Rightarrow> ('t pydate, int64) match_row list) \<Rightarrow>
   (string option, int64) match_row list \<Rightarrow> py_error + ('t pydate, int64) match_row list" where
  "load_matches to_datetime upper sort_values raw =
     and_then (to_datetime (map date raw)) (\<lambda>dates.
       let df1 = map2 with_date raw dates
       in and_then (str_accessor (map result df1)) (\<lambda>column.
            let uppered = map (str_method upper) column;
                stripped = map (str_method str_strip) uppered;
                df2 = map2 (\<lambda>r c. r\<lparr>result := c\<rparr>) df1 stripped
            in Inr (sort_values df2)))"

subsection \<open>Metrics of one match\<close>

text \<open>
  \<^verbatim>\<open>def compute_match_metrics(row):
      first_serve_pct = _safe_div(row["first_serve_in"], row["first_serve_total"])
      first_pts_won_pct = _safe_div(row["first_serve_points_won"], row["first_serve_points_total"])
      second_pts_won_pct = _safe_div(row["second_serve_points_won"], row["second_serve_points_total"])
      bp_saved_pct = _safe_div(row["break_points_saved"], row["break_points_faced"])
      return {"first_serve_pct": first_serve_pct, ...}\<close>

  The dictionary returned is a map from the metric's name.
\<close>

definition compute_match_metrics :: "('d, int) match_row \<Rightarrow> py_error + (string \<rightharpoonup> pyfloat)" where
  "compute_match_metrics row =
     and_then (safe_div (PyInt (first_serve_in row)) (PyInt (first_serve_total row)))
       (\<lambda>first_serve_pct.
     and_then (safe_div (PyInt (first_serve_points_won row))
                        (PyInt (first_serve_points_total row)))
       (\<lambda>first_pts_won_pct.
     and_then (safe_div (PyInt (second_serve_points_won row))
                        (PyInt (second_serve_points_total row)))
       (\<lambda>second_pts_won_pct.
     and_then (safe_div (PyInt (break_points_saved row)) (PyInt (break_points_faced row)))
       (\<lambda>bp_saved_pct.
     Inr [''first_serve_pct'' \<mapsto> first_serve_pct,
          ''first_serve_pts_won_pct'' \<mapsto> first_pts_won_pct,
          ''second_serve_pts_won_pct'' \<mapsto> second_pts_won_pct,
          ''break_points_saved_pct'' \<mapsto> bp_saved_pct]))))"

subsection \<open>Season summary\<close>

record Summary =
  matches :: int
  wins :: int
  losses :: int
  win_rate :: pyfloat
  avg_aces :: pyfloat
  avg_double_faults :: pyfloat
  first_serve_pct :: pyfloat
  first_serve_pts_won_pct :: pyfloat
  second_serve_pts_won_pct :: pyfloat
  break_points_saved_pct :: pyfloat

text \<open>
  \<^verbatim>\<open>Series.sum()\<close> of an \<^verbatim>\<open>int64\<close> column: the sum in 64-bit arithmetic, which wraps
  around. The number of rows whose result equals a value.
\<close>

definition column_sum :: "(('d, int64) match_row \<Rightarrow> int64) \<Rightarrow> ('d, int64) match_row list \<Rightarrow> int64" where
  "column_sum col df = sum_list (map col df)"

definition count_result :: "cell \<Rightarrow> ('d, 'n) match_row list \<Rightarrow> int" where
  "count_result v df = int (length (filter (\<lambda>r. result r = v) df))"

text \<open>
  \<^verbatim>\<open>Series.mean()\<close> of an \<^verbatim>\<open>int64\<close> column: the cells are added as floats and the sum
  is divided by the count; NaN for no rows.
\<close>

definition column_mean :: "(('d, int64) match_row \<Rightarrow> int64) \<Rightarrow> ('d, int64) match_row list \<Rightarrow> pyfloat" where
  "column_mean col df =
     (if df = [] then NaN
      else Fin (of_int (sum_list (map (\<lambda>r. sint (col r)) df)) / of_nat (length df)))"

text \<open>
  \<^verbatim>\<open>def compute_summary(df):
      matches = int(len(df))
      wins = int((df["result"] == "W").sum())
      losses = int((df["result"] == "L").sum())
      win_rate = _safe_div(wins, matches)
      avg_aces = float(df["aces"].mean()) if matches else 0.0
      avg_double_faults = float(df["double_faults"].mean()) if matches else 0.0
      first_serve_pct = _safe_div(df["first_serve_in"].sum(), df["first_serve_total"].sum())
      ...
      return Summary(matches=matches, ...)\<close>
\<close>

definition compute_summary :: "('d, int64) match_row list \<Rightarrow> py_error + Summary" where
  "compute_summary df =
     (let matches = int (length df);
          wins = count_result (Text (py_str ''W'')) df;
          losses = count_result (Text (py_str ''L'')) df
      in
      and_then (safe_div (PyInt wins) (PyInt matches)) (\<lambda>win_rate.
      let avg_aces = (if matches \<noteq> 0 then column_mean aces df else Fin 0);
          avg_double_faults = (if matches \<noteq> 0 then column_mean double_faults df else Fin 0)
      in
      and_then (safe_div (PyInt (sint (column_sum first_serve_in df)))
                         (PyInt (sint (column_sum first_serve_total df))))
        (\<lambda>first_serve_pct.
      and_then (safe_div (PyInt (sint (column_sum first_serve_points_won df)))
                         (PyInt (sint (column_sum first_serve_points_total df))))
        (\<lambda>first_pts_won_pct.
      and_then (safe_div (PyInt (sint (column_sum second_serve_points_won df)))
                         (PyInt (sint (column_sum second_serve_points_total df))))
        (\<lambda>second_pts_won_pct.
      and_then (safe_div (PyInt (sint (column_sum break_points_saved df)))
                         (PyInt (sint (column_sum break_points_faced df))))
        (\<lambda>bp_saved_pct.
      Inr \<lparr>matches = matches, wins = wins, losses = losses, win_rate = win_rate,
           avg_aces = avg_aces, avg_double_faults = avg_double_faults,
           first_serve_pct = first_serve_pct,
           first_serve_pts_won_pct = first_pts_won_pct,
           second_serve_pts_won_pct = second_pts_won_pct,
           break_points_saved_pct = bp_saved_pct\<rparr>))))))"

subsection \<open>Lookup by date\<close>

text \<open>\<^verbatim>\<open>hit.iloc[0]\<close>: the first row, and an IndexError where there is none.\<close>

definition iloc0 :: "'a list \<Rightarrow> py_error + 'a" where
  "iloc0 rows = (case rows of [] \<Rightarrow> Inl IndexError | r # _ \<Rightarrow> Inr r)"

text \<open>
  \<^verbatim>\<open>def find_match_by_date(df, date_str):
      d = pd.to_datetime(date_str)
      hit = df[df["date"] == d]
      if hit.empty:
          return None
      return hit.iloc[0]\<close>

  The parser of one string is the parameter \<open>to_datetime\<close>: it raises, or returns NaT,
  or returns a time stamp.
\<close>

definition find_match_by_date ::
  "(string \<Rightarrow> py_error + 't pydate) \<Rightarrow> ('t pydate, 'n) match_row list \<Rightarrow> string \<Rightarrow>
   py_error + ('t pydate, 'n) match_row option" where
  "find_match_by_date to_datetime df date_str =
     and_then (to_datetime date_str) (\<lambda>d.
       let hit = filter (\<lambda>r. date_eq (date r) d) df
       in if hit = [] then Inr None else and_then (iloc0 hit) (\<lambda>r. Inr (Some r)))"

subsection \<open>Instances of the parameters\<close>

text \<open>
  The library routines on the inputs used below. \<^verbatim>\<open>str.upper\<close> on ASCII text maps the
  letters a to z to A to Z.
\<close>

definition ascii_upper :: "pystr \<Rightarrow> pystr" where
  "ascii_upper s = map (\<lambda>c. if 97 \<le> c \<and> c \<le> 122 then c - 32 else c) s"

text \<open>
  \<^verbatim>\<open>pd.to_datetime\<close> on one string, for the empty string and for dates written
  \<^verbatim>\<open>YYYY-MM-DD\<close>: the empty string gives NaT without raising, a date of the calendar
  between the years 1678 and 2261 gives its time stamp (here the number \<open>YYYYMMDD\<close>,
  whose order is that of the calendar), and the parser raises on the other strings of
  that shape and on text that is no date.
\<close>

definition digit_val :: "char \<Rightarrow> nat option" where
  "digit_val c = (let n = (of_char c :: nat) in if 48 \<le> n \<and> n \<le> 57 then Some (n - 48) else None)"

fun number_val :: "nat \<Rightarrow> string \<Rightarrow> nat option" where
  "number_val acc [] = Some acc"
| "number_val acc (c # cs) =
     (case digit_val c of None \<Rightarrow> None | Some v \<Rightarrow> number_val (10 * acc + v) cs)"

definition days_in_month :: "nat \<Rightarrow> nat \<Rightarrow> nat" where
  "days_in_month y m =
     (if m = 2 then (if y mod 4 = 0 \<and> (y mod 100 \<noteq> 0 \<or> y mod 400 = 0) then 29 else 28)
      else if m = 4 \<or> m = 6 \<or> m = 9 \<or> m = 11 then 30 else 31)"

definition iso_to_datetime :: "string \<Rightarrow> py_error + nat pydate" where
  "iso_to_datetime s =
     (if s = [] then Inr NaT
      else if length s = 10 \<and> s ! 4 = CHR ''-'' \<and> s ! 7 = CHR ''-'' then
        (case (number_val 0 (take 4 s), number_val 0 (take 2 (drop 5 s)), number_val 0 (drop 8 s)) of
           (Some y, Some m, Some d) \<Rightarrow>
             if 1678 \<le> y \<and> y \<le> 2261 \<and> 1 \<le> m \<and> m \<le> 12 \<and> 1 \<le> d \<and> d \<le> days_in_month y m
             then Inr (Timestamp (10000 * y + 100 * m + d)) else Inl ParseError
         | _ \<Rightarrow> Inl ParseError)
      else Inl ParseError)"

text \<open>The same on a column whose cells are empty or of that shape; an empty cell gives NaT.\<close>

fun iso_column :: "string option list \<Rightarrow> py_error + nat pydate list" where
  "iso_column [] = Inr []"
| "iso_column (c # cs) =
     and_then (case c of None \<Rightarrow> Inr NaT | Some s \<Rightarrow> iso_to_datetime s) (\<lambda>d.
     and_then (iso_column cs) (\<lambda>ds. Inr (d # ds)))"

text \<open>
  \<^verbatim>\<open>sort_values("date")\<close> on a short table: the rows in ascending order of the date,
  rows without a date last, rows of one date in their input order.
\<close>

definition date_key :: "nat pydate \<Rightarrow> nat \<times> nat" where
  "date_key d = (case d of NaT \<Rightarrow> (1, 0) | Timestamp t \<Rightarrow> (0, t))"

definition short_sort :: "(nat pydate, 'n) match_row list \<Rightarrow> (nat pydate, 'n) match_row list" where
  "short_sort df = sort_key (\<lambda>r. date_key (date r)) df"

subsection \<open>Concrete tables\<close>

text \<open>
  The row and the two-row table of the module's unit tests. Columns that a test leaves
  out are empty or zero here, and the date column is of the one-element type.
\<close>

definition test_row :: "(unit, int) match_row" where
  "test_row =
     \<lparr>date = (), opponent = [], surface = [], result = Missing, score = [], aces = 0,
      double_faults = 0, first_serve_in = 40, first_serve_total = 50,
      first_serve_points_won = 30, first_serve_points_total = 40,
      second_serve_points_won = 10, second_serve_points_total = 20,
      break_points_saved = 6, break_points_faced = 8\<rparr>"

definition two_matches :: "(unit, int64) match_row list" where
  "two_matches =
     [\<lparr>date = (), opponent = [], surface = [], result = Text (py_str ''W''), score = [],
       aces = 5, double_faults = 1, first_serve_in = 40, first_serve_total = 50,
       first_serve_points_won = 30, first_serve_points_total = 40,
       second_serve_points_won = 10, second_serve_points_total = 20,
       break_points_saved = 6, break_points_faced = 8\<rparr>,
      \<lparr>date = (), opponent = [], surface = [], result = Text (py_str ''L''), score = [],
       aces = 1, double_faults = 3, first_serve_in = 30, first_serve_total = 60,
       first_serve_points_won = 18, first_serve_points_total = 30,
       second_serve_points_won = 12, second_serve_points_total = 30,
       break_points_saved = 2, break_points_faced = 6\<rparr>]"

text \<open>
  The test row with \<open>2^1024\<close> first serves; a row whose counters are all zero; and a table
  of two matches with \<open>2^62\<close> first serves each.
\<close>

definition huge_row :: "(unit, int) match_row" where
  "huge_row = test_row\<lparr>first_serve_total := 2 ^ 1024\<rparr>"

definition zero_row :: "(unit, int) match_row" where
  "zero_row =
     \<lparr>date = (), opponent = [], surface = [], result = Missing, score = [], aces = 0,
      double_faults = 0, first_serve_in = 0, first_serve_total = 0,
      first_serve_points_won = 0, first_serve_points_total = 0,
      second_serve_points_won = 0, second_serve_points_total = 0,
      break_points_saved = 0, break_points_faced = 0\<rparr>"

definition wide_match :: "(unit, int64) match_row" where
  "wide_match =
     \<lparr>date = (), opponent = [], surface = [], result = Text (py_str ''W''), score = [],
      aces = 5, double_faults = 1, first_serve_in = 1, first_serve_total = 2 ^ 62,
      first_serve_points_won = 30, first_serve_points_total = 40,
      second_serve_points_won = 10, second_serve_points_total = 20,
      break_points_saved = 6, break_points_faced = 8\<rparr>"

definition wide_matches :: "(unit, int64) match_row list" where
  "wide_matches = [wide_match, wide_match]"

text \<open>
  A row given by its date, opponent and result, the other columns fixed. A raw table of
  three such matches, not in date order, two of them on the same day, with results
  written in lower case and with blanks; the table once loaded; a raw table whose only
  result is neither a win nor a loss; and a loaded table with a match that has no date.
\<close>

definition table_row :: "'d \<Rightarrow> string \<Rightarrow> cell \<Rightarrow> ('d, int64) match_row" where
  "table_row d opp res =
     \<lparr>date = d, opponent = opp, surface = ''Hard'', result = res, score = ''6-4 6-4'',
      aces = 5, double_faults = 1, first_serve_in = 40, first_serve_total = 50,
      first_serve_points_won = 30, first_serve_points_total = 40,
      second_serve_points_won = 10, second_serve_points_total = 20,
      break_points_saved = 6, break_points_faced = 8\<rparr>"

definition raw_table :: "(string option, int64) match_row list" where
  "raw_table =
     [table_row (Some ''2025-10-08'') ''Ann'' (Text (py_str '' w'')),
      table_row (Some ''2025-09-01'') ''Bea'' (Text (py_str ''l '')),
      table_row (Some ''2025-10-08'') ''Cleo'' (Text (py_str ''W''))]"

definition loaded_table :: "(nat pydate, int64) match_row list" where
  "loaded_table =
     [table_row (Timestamp 20250901) ''Bea'' (Text (py_str ''L'')),
      table_row (Timestamp 20251008) ''Ann'' (Text (py_str ''W'')),
      table_row (Timestamp 20251008) ''Cleo'' (Text (py_str ''W''))]"

definition odd_table :: "(string option, int64) match_row list" where
  "odd_table = [table_row (Some ''2025-10-08'') ''Ann'' (Text (py_str '' x ''))]"

definition undated_table :: "(nat pydate, int64) match_row list" where
  "undated_table =
     [table_row (Timestamp 20250901) ''Bea'' (Text (py_str ''L'')),
      table_row NaT ''Dee'' (Text (py_str ''W''))]"

subsection \<open>Notions of the specification\<close>

text \<open>
  A float is a rate when it lies between 0 and 1 (negative zero is zero). An integer is
  in the range of the floats when its conversion does not raise (a float is always), a
  row when its eight rate counters are, and an integer is in the range of \<^verbatim>\<open>int64\<close> when
  64 bits hold it.
\<close>

fun in_unit_interval :: "pyfloat \<Rightarrow> bool" where
  "in_unit_interval (Fin x) = (0 \<le> x \<and> x \<le> 1)"
| "in_unit_interval NZero = True"
| "in_unit_interval _ = False"

definition float_range :: "int \<Rightarrow> bool" where
  "float_range i = (\<bar>i\<bar> < float_limit)"

fun num_range :: "pynum \<Rightarrow> bool" where
  "num_range (PyFloat f) = True"
| "num_range (PyInt i) = float_range i"

definition row_range :: "('d, int) match_row \<Rightarrow> bool" where
  "row_range row =
     (float_range (first_serve_in row) \<and> float_range (first_serve_total row) \<and>
      float_range (first_serve_points_won row) \<and> float_range (first_serve_points_total row) \<and>
      float_range (second_serve_points_won row) \<and> float_range (second_serve_points_total row) \<and>
      float_range (break_points_saved row) \<and> float_range (break_points_faced row))"

definition int64_range :: "int \<Rightarrow> bool" where
  "int64_range i = (- (2 ^ 63) \<le> i \<and> i < 2 ^ 63)"

text \<open>The quotient of two integers as a float, 0.0 for the divisor zero.\<close>

definition int_rate :: "int \<Rightarrow> int \<Rightarrow> pyfloat" where
  "int_rate n d =
     (if d = 0 then Fin 0
      else if n = 0 then signed_zero (d < 0)
      else Fin (of_int n / of_int d))"

text \<open>The sum of a counter over all records, as a number.\<close>

definition total :: "(('d, int64) match_row \<Rightarrow> int64) \<Rightarrow> ('d, int64) match_row list \<Rightarrow> int" where
  "total col df = (\<Sum>r\<leftarrow>df. sint (col r))"

text \<open>
  The quantity that the season rates are said not to be: the arithmetic mean, over the
  matches, of the rate of each match (zero for a match whose denominator is zero).
\<close>

definition per_match_rate ::
  "(('d, int64) match_row \<Rightarrow> int64) \<Rightarrow> (('d, int64) match_row \<Rightarrow> int64) \<Rightarrow>
   ('d, int64) match_row \<Rightarrow> real" where
  "per_match_rate num den r =
     (if den r = 0 then 0 else of_int (sint (num r)) / of_int (sint (den r)))"

definition mean_of_match_rates ::
  "(('d, int64) match_row \<Rightarrow> int64) \<Rightarrow> (('d, int64) match_row \<Rightarrow> int64) \<Rightarrow>
   ('d, int64) match_row list \<Rightarrow> real" where
  "mean_of_match_rates num den df =
     sum_list (map (per_match_rate num den) df) / of_nat (length df)"

text \<open>
  The row that loading makes of a raw row and its parsed date: the result in upper case,
  then stripped, a result that is no text replaced by the missing value.
\<close>

definition normalize_row ::
  "(pystr \<Rightarrow> pystr) \<Rightarrow> ('a, 'n) match_row \<Rightarrow> 'd \<Rightarrow> ('d, 'n) match_row" where
  "normalize_row upper r d =
     (with_date r d)\<lparr>result := str_method str_strip (str_method upper (result r))\<rparr>"

section \<open>Properties\<close>

subsection \<open>Safe division\<close>

lemma float_range_py_float: "float_range i \<Longrightarrow> py_float (PyInt i) = Inr (Fin (of_int i))"
  by (simp add: float_range_def)

lemma float_range_sint: "float_range (sint (w :: int64))"
proof -
  have "- (2 ^ 63) \<le> sint w" "sint w < 2 ^ 63"
    using sint_ge [of w] sint_lt [of w] by simp_all
  then have "\<bar>sint w\<bar> \<le> 2 ^ 63" by simp
  moreover have "(2 :: int) ^ 63 < float_limit" by (simp add: float_limit_def)
  ultimately show ?thesis unfolding float_range_def by linarith
qed

lemma float_range_small: "\<bar>i\<bar> \<le> 2 ^ 63 \<Longrightarrow> float_range i"
proof -
  assume "\<bar>i\<bar> \<le> 2 ^ 63"
  moreover have "(2 :: int) ^ 63 < float_limit" by (simp add: float_limit_def)
  ultimately show ?thesis unfolding float_range_def by linarith
qed

lemma float_of_real_quotient:
  assumes "float_range n" and "float_range d" and "n \<noteq> 0" and "d \<noteq> 0"
  shows "float_of_real (of_int n / of_int d) = Fin (of_int n / of_int d)"
proof -
  define a :: real where "a = of_int \<bar>n\<bar>"
  define b :: real where "b = of_int \<bar>d\<bar>"
  define L :: real where "L = of_int float_limit"
  have q: "\<bar>of_int n / of_int d :: real\<bar> = a / b"
    by (simp add: a_def b_def)
  from assms have "1 \<le> \<bar>n\<bar>" "1 \<le> \<bar>d\<bar>" "\<bar>n\<bar> < float_limit" "\<bar>d\<bar> < float_limit"
    by (simp_all add: float_range_def)
  then have a: "1 \<le> a" "a < L" and b: "1 \<le> b" "b < L"
    unfolding a_def b_def L_def by (simp_all only: of_int_less_iff flip: of_int_1_le_iff)
  have "a / b \<le> a" using a b by (simp add: field_simps mult_le_cancel_left1)
  with a have up: "\<not> L \<le> a / b" by linarith
  have "L \<le> 2 ^ 1024" by (simp add: L_def float_limit_def)
  with b have "b < 2 ^ 1024" by linarith
  then have "1 / 2 ^ 1024 < 1 / b" using b by (simp add: field_simps)
  moreover have "1 / b \<le> a / b" using a b by (simp add: field_simps)
  moreover have "(1 :: real) / 2 ^ 1075 < 1 / 2 ^ 1024" by simp
  ultimately have low: "\<not> a / b \<le> 1 / 2 ^ 1075" by linarith
  show ?thesis
    unfolding float_of_real_def q using up low by (simp add: L_def)
qed

lemma safe_div_zero:
  "\<not> truthy d \<Longrightarrow> safe_div n d = Inr (Fin 0)"
  by (simp add: safe_div_def)

lemma safe_div_floats:
  "safe_div (PyFloat a) (PyFloat b) = Inr (if is_zero b then Fin 0 else float_quotient a b)"
  by (simp add: safe_div_def and_then_def py_truediv_def)

lemma safe_div_int:
  assumes "float_range n" and "float_range d"
  shows "safe_div (PyInt n) (PyInt d) = Inr (int_rate n d)"
proof (cases "d = 0")
  case True
  then show ?thesis by (simp add: safe_div_def int_rate_def)
next
  case False
  from assms have pn: "py_float (PyInt n) = Inr (Fin (of_int n))"
    and pd: "py_float (PyInt d) = Inr (Fin (of_int d))"
    by (simp_all only: float_range_py_float)
  have "safe_div (PyInt n) (PyInt d) = py_truediv (Fin (of_int n)) (Fin (of_int d))"
    using False unfolding safe_div_def pn pd and_then_def by simp
  also have "\<dots> = Inr (int_rate n d)"
  proof (cases "n = 0")
    case True
    with False show ?thesis
      by (simp add: py_truediv_def is_zero_def float_quotient_def is_inf_def int_rate_def
          signed_zero_def)
  next
    case n: False
    with False show ?thesis
      by (simp add: py_truediv_def is_zero_def float_quotient_def is_inf_def int_rate_def
          float_of_real_quotient [OF assms])
  qed
  finally show ?thesis .
qed

lemma safe_div_int_zero: "safe_div n (PyInt 0) = Inr (Fin 0)"
  by (simp add: safe_div_def)

text \<open>
  C2, as stated, fails: the conversion of the divisor raises OverflowError on an
  integer beyond the range of the floats, although the quotient \<open>1 / 2^1024\<close> exists.
\<close>

theorem safe_div_overflow_counterexample:
  "truthy (PyInt (2 ^ 1024)) \<and> safe_div (PyInt 1) (PyInt (2 ^ 1024)) = Inl OverflowError"
  by (simp add: safe_div_def and_then_def float_limit_def)

lemma num_range_py_float: "num_range n \<Longrightarrow> \<exists>a. py_float n = Inr a"
  by (cases n) (simp_all add: float_range_def)

lemma truthy_py_float: "truthy d \<Longrightarrow> py_float d = Inr b \<Longrightarrow> \<not> is_zero b"
  by (cases d) (auto simp: is_zero_def split: if_splits)

text \<open>
  C2, amended. For every numerator and denominator that are floats or integers in the
  range of the floats, safe division never raises; for a denominator other than zero it
  returns the quotient of the two as floats, and for a denominator that is zero (the
  integer, positive or negative zero) it returns 0.0, whatever the numerator.
\<close>

theorem safe_div_correct:
  assumes "num_range n" and "num_range d"
  shows "(\<exists>v. safe_div n d = Inr v) \<and>
         (truthy d \<longrightarrow>
            (\<exists>a b. py_float n = Inr a \<and> py_float d = Inr b \<and> \<not> is_zero b \<and>
                   py_truediv a b = Inr (float_quotient a b) \<and>
                   safe_div n d = Inr (float_quotient a b))) \<and>
         (\<not> truthy d \<longrightarrow> safe_div n d = Inr (Fin 0)) \<and>
         (x \<noteq> 0 \<and> y \<noteq> 0 \<and> 1 / 2 ^ 1075 < \<bar>x / y\<bar> \<and> \<bar>x / y\<bar> < of_int float_limit \<longrightarrow>
            safe_div (PyFloat (Fin x)) (PyFloat (Fin y)) = Inr (Fin (x / y))) \<and>
         safe_div m (PyInt 0) = Inr (Fin 0) \<and>
         safe_div m (PyFloat (Fin 0)) = Inr (Fin 0) \<and>
         safe_div m (PyFloat NZero) = Inr (Fin 0)"
proof -
  from assms obtain a b where a: "py_float n = Inr a" and b: "py_float d = Inr b"
    using num_range_py_float by blast
  have t: "truthy d \<Longrightarrow> safe_div n d = Inr (float_quotient a b) \<and> \<not> is_zero b \<and>
      py_truediv a b = Inr (float_quotient a b)"
    using truthy_py_float [OF _ b] by (simp add: safe_div_def a b and_then_def py_truediv_def)
  have f: "\<not> truthy d \<Longrightarrow> safe_div n d = Inr (Fin 0)"
    by (rule safe_div_zero)
  have e: "\<exists>v. safe_div n d = Inr v"
    using t f by (cases "truthy d") blast+
  have q: "x \<noteq> 0 \<and> y \<noteq> 0 \<and> 1 / 2 ^ 1075 < \<bar>x / y\<bar> \<and> \<bar>x / y\<bar> < of_int float_limit \<longrightarrow>
      safe_div (PyFloat (Fin x)) (PyFloat (Fin y)) = Inr (Fin (x / y))"
    by (auto simp: safe_div_floats is_zero_def float_quotient_def is_inf_def float_of_real_def)
  have z: "safe_div m (PyInt 0) = Inr (Fin 0)" "safe_div m (PyFloat (Fin 0)) = Inr (Fin 0)"
    "safe_div m (PyFloat NZero) = Inr (Fin 0)"
    by (simp_all add: safe_div_def is_zero_def)
  from e t f q z a b show ?thesis by blast
qed

theorem safe_div_correct_witness:
  "num_range (PyInt 3) \<and> num_range (PyInt 4) \<and> truthy (PyInt 4) \<and>
   safe_div (PyInt 3) (PyInt 4) = Inr (Fin (3 / 4)) \<and>
   num_range (PyFloat NaN) \<and> num_range (PyFloat NZero) \<and> \<not> truthy (PyFloat NZero) \<and>
   safe_div (PyFloat NaN) (PyFloat NZero) = Inr (Fin 0) \<and>
   safe_div (PyFloat (Fin 3)) (PyFloat (Fin 4)) = Inr (Fin (3 / 4))"
proof -
  have r: "num_range (PyInt 3)" "num_range (PyInt 4)" "num_range (PyFloat NaN)"
    "num_range (PyFloat NZero)"
    by (simp_all add: float_range_def float_limit_def)
  have t: "truthy (PyInt 4)" "\<not> truthy (PyFloat NZero)"
    by (simp_all add: is_zero_def)
  have v: "float_quotient (Fin 3) (Fin 4) = Fin (3 / 4)"
    using float_of_real_quotient [of 3 4]
    by (simp add: float_quotient_def is_inf_def is_zero_def float_range_def float_limit_def)
  have w: "(3 :: real) \<noteq> 0 \<and> (4 :: real) \<noteq> 0 \<and> 1 / 2 ^ 1075 < \<bar>3 / 4 :: real\<bar> \<and>
      \<bar>3 / 4 :: real\<bar> < of_int float_limit"
    by (simp add: float_limit_def)
  have p: "py_float (PyInt 3) = Inr (Fin 3)" "py_float (PyInt 4) = Inr (Fin 4)"
    by (simp_all add: float_limit_def)
  from safe_div_correct [OF r(1) r(2), of 3 4] safe_div_correct [OF r(3) r(4), of 3 4] r t v p w
  show ?thesis by auto
qed

subsection \<open>Metrics of one match\<close>

lemma compute_match_metrics_eq:
  assumes "row_range row"
  shows "compute_match_metrics row =
     Inr [''first_serve_pct'' \<mapsto> int_rate (first_serve_in row) (first_serve_total row),
          ''first_serve_pts_won_pct'' \<mapsto>
             int_rate (first_serve_points_won row) (first_serve_points_total row),
          ''second_serve_pts_won_pct'' \<mapsto>
             int_rate (second_serve_points_won row) (second_serve_points_total row),
          ''break_points_saved_pct'' \<mapsto>
             int_rate (break_points_saved row) (break_points_faced row)]"
  using assms unfolding compute_match_metrics_def row_range_def
  by (simp add: safe_div_int and_then_def)

lemma test_row_range: "row_range test_row"
  by (simp add: row_range_def test_row_def float_range_def float_limit_def)

lemma zero_row_range: "row_range zero_row"
  by (simp add: row_range_def zero_row_def float_range_def float_limit_def)

text \<open>
  C3, as stated, fails: a counter of a row may be an integer beyond the range of the
  floats, and its conversion raises. With \<open>2^1024\<close> first serves, of which 40 are in,
  \<open>compute_match_metrics\<close> raises OverflowError.
\<close>

theorem compute_match_metrics_overflow_counterexample:
  "first_serve_in huge_row = 40 \<and> first_serve_total huge_row = 2 ^ 1024 \<and>
   compute_match_metrics huge_row = Inl OverflowError"
  by (simp add: compute_match_metrics_def huge_row_def test_row_def safe_div_def and_then_def
      float_limit_def)

text \<open>
  C3, amended. For every row whose counters are in the range of the floats (every
  64-bit integer is), \<open>compute_match_metrics\<close> returns (it does not raise) a dictionary
  of exactly four entries, each the safe quotient of its two counters; for the row of
  the unit test the entries are 0.8, 0.75, 0.5 and 0.75.
\<close>

theorem compute_match_metrics_correct:
  assumes "row_range row"
  shows "(\<exists>a b c d m.
      safe_div (PyInt (first_serve_in row)) (PyInt (first_serve_total row)) = Inr a \<and>
      safe_div (PyInt (first_serve_points_won row)) (PyInt (first_serve_points_total row)) = Inr b \<and>
      safe_div (PyInt (second_serve_points_won row)) (PyInt (second_serve_points_total row)) = Inr c \<and>
      safe_div (PyInt (break_points_saved row)) (PyInt (break_points_faced row)) = Inr d \<and>
      compute_match_metrics row = Inr m \<and>
      dom m = {''first_serve_pct'', ''first_serve_pts_won_pct'', ''second_serve_pts_won_pct'',
               ''break_points_saved_pct''} \<and>
      m ''first_serve_pct'' = Some a \<and>
      m ''first_serve_pts_won_pct'' = Some b \<and>
      m ''second_serve_pts_won_pct'' = Some c \<and>
      m ''break_points_saved_pct'' = Some d) \<and>
   compute_match_metrics test_row =
     Inr [''first_serve_pct'' \<mapsto> Fin 0.8, ''first_serve_pts_won_pct'' \<mapsto> Fin 0.75,
          ''second_serve_pts_won_pct'' \<mapsto> Fin 0.5, ''break_points_saved_pct'' \<mapsto> Fin 0.75]"
proof
  show "compute_match_metrics test_row =
     Inr [''first_serve_pct'' \<mapsto> Fin 0.8, ''first_serve_pts_won_pct'' \<mapsto> Fin 0.75,
          ''second_serve_pts_won_pct'' \<mapsto> Fin 0.5, ''break_points_saved_pct'' \<mapsto> Fin 0.75]"
    unfolding compute_match_metrics_eq [OF test_row_range]
    by (simp add: test_row_def int_rate_def)
next
  from assms have r: "float_range (first_serve_in row)" "float_range (first_serve_total row)"
    "float_range (first_serve_points_won row)" "float_range (first_serve_points_total row)"
    "float_range (second_serve_points_won row)" "float_range (second_serve_points_total row)"
    "float_range (break_points_saved row)" "float_range (break_points_faced row)"
    by (simp_all add: row_range_def)
  show "\<exists>a b c d m.
      safe_div (PyInt (first_serve_in row)) (PyInt (first_serve_total row)) = Inr a \<and>
      safe_div (PyInt (first_serve_points_won row)) (PyInt (first_serve_points_total row)) = Inr b \<and>
      safe_div (PyInt (second_serve_points_won row)) (PyInt (second_serve_points_total row)) = Inr c \<and>
      safe_div (PyInt (break_points_saved row)) (PyInt (break_points_faced row)) = Inr d \<and>
      compute_match_metrics row = Inr m \<and>
      dom m = {''first_serve_pct'', ''first_serve_pts_won_pct'', ''second_serve_pts_won_pct'',
               ''break_points_saved_pct''} \<and>
      m ''first_serve_pct'' = Some a \<and>
      m ''first_serve_pts_won_pct'' = Some b \<and>
      m ''second_serve_pts_won_pct'' = Some c \<and>
      m ''break_points_saved_pct'' = Some d"
    unfolding compute_match_metrics_eq [OF assms] by (auto simp: safe_div_int r dom_def)
qed

theorem compute_match_metrics_correct_witness:
  "row_range test_row \<and>
   safe_div (PyInt 40) (PyInt 50) = Inr (Fin 0.8) \<and>
   (\<exists>m. compute_match_metrics test_row = Inr m \<and> m ''first_serve_pct'' = Some (Fin 0.8) \<and>
      m ''first_serve_pts_won_pct'' = Some (Fin 0.75) \<and>
      m ''second_serve_pts_won_pct'' = Some (Fin 0.5) \<and>
      m ''break_points_saved_pct'' = Some (Fin 0.75))"
proof -
  have s: "safe_div (PyInt 40) (PyInt 50) = Inr (Fin 0.8)"
    by (simp add: safe_div_int float_range_def float_limit_def int_rate_def)
  from compute_match_metrics_correct [OF test_row_range] test_row_range s
  show ?thesis by simp
qed

lemma compute_match_metrics_Inr:
  assumes "compute_match_metrics row = Inr m"
  shows "\<exists>a b c d.
      safe_div (PyInt (first_serve_in row)) (PyInt (first_serve_total row)) = Inr a \<and>
      safe_div (PyInt (first_serve_points_won row)) (PyInt (first_serve_points_total row)) = Inr b \<and>
      safe_div (PyInt (second_serve_points_won row)) (PyInt (second_serve_points_total row)) = Inr c \<and>
      safe_div (PyInt (break_points_saved row)) (PyInt (break_points_faced row)) = Inr d \<and>
      m = [''first_serve_pct'' \<mapsto> a, ''first_serve_pts_won_pct'' \<mapsto> b,
           ''second_serve_pts_won_pct'' \<mapsto> c, ''break_points_saved_pct'' \<mapsto> d]"
  using assms unfolding compute_match_metrics_def and_then_def
  by (auto split: sum.splits)

lemma safe_div_Inr_range:
  assumes "safe_div (PyInt n) (PyInt d) = Inr v" and "d \<noteq> 0"
  shows "float_range n \<and> float_range d"
  using assms unfolding safe_div_def and_then_def float_range_def
  by (auto split: if_splits sum.splits)

lemma safe_div_rate:
  assumes "safe_div (PyInt n) (PyInt d) = Inr v"
  shows "(0 \<le> n \<and> n \<le> d \<and> 0 < d \<longrightarrow> in_unit_interval v) \<and> (d = 0 \<longrightarrow> v = Fin 0)"
proof (cases "d = 0")
  case True
  with assms show ?thesis by (simp add: safe_div_def)
next
  case False
  with assms have "float_range n" "float_range d"
    using safe_div_Inr_range by blast+
  with assms have v: "v = int_rate n d" by (simp add: safe_div_int)
  show ?thesis using False unfolding v
    by (auto simp: int_rate_def signed_zero_def)
qed

text \<open>
  C5. For every row whose counters are not negative (the invariant of a match record),
  each of the four metrics that \<open>compute_match_metrics\<close> returns lies in the interval
  from 0.0 to 1.0 whenever its numerator counter is at most its denominator counter and
  the denominator counter is positive, and is 0.0 when the denominator counter is zero.
  The metrics are returned for every row whose counters are in the range of the floats.
\<close>

theorem metrics_in_unit_interval:
  "(row_range row \<longrightarrow> (\<exists>m. compute_match_metrics row = Inr m)) \<and>
   (compute_match_metrics row = Inr m \<longrightarrow>
     (0 \<le> first_serve_in row \<and> first_serve_in row \<le> first_serve_total row \<and>
      0 < first_serve_total row \<longrightarrow>
        (\<exists>v. m ''first_serve_pct'' = Some v \<and> in_unit_interval v)) \<and>
     (0 \<le> first_serve_points_won row \<and>
      first_serve_points_won row \<le> first_serve_points_total row \<and>
      0 < first_serve_points_total row \<longrightarrow>
        (\<exists>v. m ''first_serve_pts_won_pct'' = Some v \<and> in_unit_interval v)) \<and>
     (0 \<le> second_serve_points_won row \<and>
      second_serve_points_won row \<le> second_serve_points_total row \<and>
      0 < second_serve_points_total row \<longrightarrow>
        (\<exists>v. m ''second_serve_pts_won_pct'' = Some v \<and> in_unit_interval v)) \<and>
     (0 \<le> break_points_saved row \<and> break_points_saved row \<le> break_points_faced row \<and>
      0 < break_points_faced row \<longrightarrow>
        (\<exists>v. m ''break_points_saved_pct'' = Some v \<and> in_unit_interval v)) \<and>
     (first_serve_total row = 0 \<longrightarrow> m ''first_serve_pct'' = Some (Fin 0)) \<and>
     (first_serve_points_total row = 0 \<longrightarrow> m ''first_serve_pts_won_pct'' = Some (Fin 0)) \<and>
     (second_serve_points_total row = 0 \<longrightarrow> m ''second_serve_pts_won_pct'' = Some (Fin 0)) \<and>
     (break_points_faced row = 0 \<longrightarrow> m ''break_points_saved_pct'' = Some (Fin 0)))"
proof (intro conjI impI)
  assume "row_range row"
  then show "\<exists>m. compute_match_metrics row = Inr m"
    by (simp add: compute_match_metrics_eq)
next
  assume c: "compute_match_metrics row = Inr m"
  then obtain a b c d where
    a: "safe_div (PyInt (first_serve_in row)) (PyInt (first_serve_total row)) = Inr a" and
    b: "safe_div (PyInt (first_serve_points_won row)) (PyInt (first_serve_points_total row)) = Inr b" and
    c: "safe_div (PyInt (second_serve_points_won row)) (PyInt (second_serve_points_total row)) = Inr c" and
    d: "safe_div (PyInt (break_points_saved row)) (PyInt (break_points_faced row)) = Inr d" and
    m: "m = [''first_serve_pct'' \<mapsto> a, ''first_serve_pts_won_pct'' \<mapsto> b,
           ''second_serve_pts_won_pct'' \<mapsto> c, ''break_points_saved_pct'' \<mapsto> d]"
    using compute_match_metrics_Inr by blast
  note ra = safe_div_rate [OF a] and rb = safe_div_rate [OF b]
    and rc = safe_div_rate [OF c] and rd = safe_div_rate [OF d]
  {
    assume "0 \<le> first_serve_in row \<and> first_serve_in row \<le> first_serve_total row \<and>
      0 < first_serve_total row"
    with ra show "\<exists>v. m ''first_serve_pct'' = Some v \<and> in_unit_interval v"
      by (simp add: m)
  }
  {
    assume "0 \<le> first_serve_points_won row \<and>
      first_serve_points_won row \<le> first_serve_points_total row \<and>
      0 < first_serve_points_total row"
    with rb show "\<exists>v. m ''first_serve_pts_won_pct'' = Some v \<and> in_unit_interval v"
      by (simp add: m)
  }
  {
    assume "0 \<le> second_serve_points_won row \<and>
      second_serve_points_won row \<le> second_serve_points_total row \<and>
      0 < second_serve_points_total row"
    with rc show "\<exists>v. m ''second_serve_pts_won_pct'' = Some v \<and> in_unit_interval v"
      by (simp add: m)
  }
  {
    assume "0 \<le> break_points_saved row \<and> break_points_saved row \<le> break_points_faced row \<and>
      0 < break_points_faced row"
    with rd show "\<exists>v. m ''break_points_saved_pct'' = Some v \<and> in_unit_interval v"
      by (simp add: m)
  }
  {
    assume "first_serve_total row = 0"
    with ra show "m ''first_serve_pct'' = Some (Fin 0)" by (simp add: m)
  }
  {
    assume "first_serve_points_total row = 0"
    with rb show "m ''first_serve_pts_won_pct'' = Some (Fin 0)" by (simp add: m)
  }
  {
    assume "second_serve_points_total row = 0"
    with rc show "m ''second_serve_pts_won_pct'' = Some (Fin 0)" by (simp add: m)
  }
  {
    assume "break_points_faced row = 0"
    with rd show "m ''break_points_saved_pct'' = Some (Fin 0)" by (simp add: m)
  }
qed

theorem metrics_in_unit_interval_witness:
  "row_range test_row \<and>
   compute_match_metrics test_row =
     Inr [''first_serve_pct'' \<mapsto> Fin 0.8, ''first_serve_pts_won_pct'' \<mapsto> Fin 0.75,
          ''second_serve_pts_won_pct'' \<mapsto> Fin 0.5, ''break_points_saved_pct'' \<mapsto> Fin 0.75] \<and>
   0 \<le> first_serve_in test_row \<and> first_serve_in test_row \<le> first_serve_total test_row \<and>
   0 < first_serve_total test_row \<and>
   0 \<le> first_serve_points_won test_row \<and>
   first_serve_points_won test_row \<le> first_serve_points_total test_row \<and>
   0 < first_serve_points_total test_row \<and>
   0 \<le> second_serve_points_won test_row \<and>
   second_serve_points_won test_row \<le> second_serve_points_total test_row \<and>
   0 < second_serve_points_total test_row \<and>
   0 \<le> break_points_saved test_row \<and> break_points_saved test_row \<le> break_points_faced test_row \<and>
   0 < break_points_faced test_row \<and>
   in_unit_interval (Fin 0.8) \<and> in_unit_interval (Fin 0.75) \<and> in_unit_interval (Fin 0.5) \<and>
   row_range zero_row \<and>
   first_serve_total zero_row = 0 \<and> first_serve_points_total zero_row = 0 \<and>
   second_serve_points_total zero_row = 0 \<and> break_points_faced zero_row = 0 \<and>
   compute_match_metrics zero_row =
     Inr [''first_serve_pct'' \<mapsto> Fin 0, ''first_serve_pts_won_pct'' \<mapsto> Fin 0,
          ''second_serve_pts_won_pct'' \<mapsto> Fin 0, ''break_points_saved_pct'' \<mapsto> Fin 0]"
proof -
  have t: "compute_match_metrics test_row =
     Inr [''first_serve_pct'' \<mapsto> Fin 0.8, ''first_serve_pts_won_pct'' \<mapsto> Fin 0.75,
          ''second_serve_pts_won_pct'' \<mapsto> Fin 0.5, ''break_points_saved_pct'' \<mapsto> Fin 0.75]"
    unfolding compute_match_metrics_eq [OF test_row_range]
    by (simp add: test_row_def int_rate_def)
  have z: "compute_match_metrics zero_row =
     Inr [''first_serve_pct'' \<mapsto> Fin 0, ''first_serve_pts_won_pct'' \<mapsto> Fin 0,
          ''second_serve_pts_won_pct'' \<mapsto> Fin 0, ''break_points_saved_pct'' \<mapsto> Fin 0]"
    unfolding compute_match_metrics_eq [OF zero_row_range]
    by (simp add: zero_row_def int_rate_def)
  have h: "0 \<le> first_serve_in test_row \<and> first_serve_in test_row \<le> first_serve_total test_row \<and>
      0 < first_serve_total test_row"
    "0 \<le> first_serve_points_won test_row \<and>
      first_serve_points_won test_row \<le> first_serve_points_total test_row \<and>
      0 < first_serve_points_total test_row"
    "0 \<le> second_serve_points_won test_row \<and>
      second_serve_points_won test_row \<le> second_serve_points_total test_row \<and>
      0 < second_serve_points_total test_row"
    "0 \<le> break_points_saved test_row \<and> break_points_saved test_row \<le> break_points_faced test_row \<and>
      0 < break_points_faced test_row"
    by (simp_all add: test_row_def)
  have k: "first_serve_total zero_row = 0" "first_serve_points_total zero_row = 0"
    "second_serve_points_total zero_row = 0" "break_points_faced zero_row = 0"
    by (simp_all add: zero_row_def)
  from metrics_in_unit_interval [of test_row
      "[''first_serve_pct'' \<mapsto> Fin 0.8, ''first_serve_pts_won_pct'' \<mapsto> Fin 0.75,
        ''second_serve_pts_won_pct'' \<mapsto> Fin 0.5, ''break_points_saved_pct'' \<mapsto> Fin 0.75]"]
    metrics_in_unit_interval [of zero_row
      "[''first_serve_pct'' \<mapsto> Fin 0, ''first_serve_pts_won_pct'' \<mapsto> Fin 0,
        ''second_serve_pts_won_pct'' \<mapsto> Fin 0, ''break_points_saved_pct'' \<mapsto> Fin 0]"]
    t z h k test_row_range zero_row_range
  show ?thesis by simp
qed

subsection \<open>Season summary\<close>

lemma count_result_le: "0 \<le> count_result v df \<and> count_result v df \<le> int (length df)"
  by (simp add: count_result_def)

lemma float_range_count:
  "float_range (int (length df)) \<Longrightarrow> float_range (count_result v df)"
  using count_result_le [of v df] unfolding float_range_def by linarith

lemma float_range_length: "length df < 2 ^ 63 \<Longrightarrow> float_range (int (length df))"
proof -
  assume "length df < 2 ^ 63"
  then have "int (length df) < 2 ^ 63" by (metis of_nat_less_iff of_nat_numeral of_nat_power)
  then show ?thesis by (intro float_range_small) simp
qed

lemma compute_summary_eq:
  assumes "float_range (int (length df))"
  shows "compute_summary df =
     Inr \<lparr>matches = int (length df), wins = count_result (Text (py_str ''W'')) df,
          losses = count_result (Text (py_str ''L'')) df,
          win_rate = int_rate (count_result (Text (py_str ''W'')) df) (int (length df)),
          avg_aces = (if df = [] then Fin 0 else column_mean aces df),
          avg_double_faults = (if df = [] then Fin 0 else column_mean double_faults df),
          first_serve_pct = int_rate (sint (column_sum first_serve_in df))
                                     (sint (column_sum first_serve_total df)),
          first_serve_pts_won_pct = int_rate (sint (column_sum first_serve_points_won df))
                                             (sint (column_sum first_serve_points_total df)),
          second_serve_pts_won_pct = int_rate (sint (column_sum second_serve_points_won df))
                                              (sint (column_sum second_serve_points_total df)),
          break_points_saved_pct = int_rate (sint (column_sum break_points_saved df))
                                            (sint (column_sum break_points_faced df))\<rparr>"
proof -
  have w: "safe_div (PyInt (count_result (Text (py_str ''W'')) df)) (PyInt (int (length df))) =
      Inr (int_rate (count_result (Text (py_str ''W'')) df) (int (length df)))"
    using assms by (intro safe_div_int float_range_count)
  show ?thesis
    unfolding compute_summary_def Let_def w
    by (simp add: safe_div_int float_range_sint and_then_def)
qed

lemma compute_summary_Inr_range:
  assumes "compute_summary df = Inr s"
  shows "float_range (int (length df))"
proof (cases "df = []")
  case True
  then show ?thesis by (simp add: float_range_def float_limit_def)
next
  case False
  then have "int (length df) \<noteq> 0" by simp
  moreover from assms obtain v where
    "safe_div (PyInt (count_result (Text (py_str ''W'')) df)) (PyInt (int (length df))) = Inr v"
    unfolding compute_summary_def Let_def and_then_def by (auto split: sum.splits)
  ultimately show ?thesis using safe_div_Inr_range by blast
qed

lemma column_mean_Nil: "column_mean col [] = NaN"
  by (simp add: column_mean_def)

text \<open>
  C4. On the empty table \<open>compute_summary\<close> returns zero matches, wins and losses, and
  0.0 in every float field. The two averages are 0.0 because the emptiness test comes
  first: the mean of an empty column, which is not taken, is NaN.
\<close>

theorem compute_summary_empty:
  "compute_summary [] =
     Inr \<lparr>matches = 0, wins = 0, losses = 0, win_rate = Fin 0, avg_aces = Fin 0,
          avg_double_faults = Fin 0, first_serve_pct = Fin 0, first_serve_pts_won_pct = Fin 0,
          second_serve_pts_won_pct = Fin 0, break_points_saved_pct = Fin 0\<rparr> \<and>
   column_mean aces [] = NaN \<and> column_mean double_faults [] = NaN"
proof -
  have "float_range (int (length ([] :: ('a, int64) match_row list)))"
    by (simp add: float_range_def float_limit_def)
  then show ?thesis
    by (simp add: compute_summary_eq column_mean_Nil count_result_def column_sum_def int_rate_def)
qed

lemma column_sum_total: "column_sum col df = word_of_int (total col df)"
  unfolding column_sum_def total_def by (induction df) simp_all

lemma sint_column_sum:
  "int64_range (total col df) \<Longrightarrow> sint (column_sum col df) = total col df"
  unfolding column_sum_total int64_range_def
  by (simp add: sint_sbintrunc' signed_take_bit_int_eq_self)

lemma two_matches_length: "float_range (int (length two_matches))"
  by (simp add: two_matches_def float_range_def float_limit_def)

lemma wide_matches_length: "float_range (int (length wide_matches))"
  by (simp add: wide_matches_def float_range_def float_limit_def)

text \<open>
  C1, as stated, fails: the sums are taken in 64-bit arithmetic. In a table of two
  matches with one first serve in out of \<open>2^62\<close> each, the first serves add up to \<open>2^63\<close>,
  which wraps to \<open>-2^63\<close>: the season rate is \<open>-(2 / 2^63)\<close>, and safe division of the two
  sums is \<open>2 / 2^63\<close>.
\<close>

theorem season_rates_wrap_counterexample:
  "total first_serve_in wide_matches = 2 \<and>
   total first_serve_total wide_matches = 2 ^ 63 \<and>
   safe_div (PyInt 2) (PyInt (2 ^ 63)) = Inr (Fin (2 / 2 ^ 63)) \<and>
   first_serve_pct (projr (compute_summary wide_matches)) = Fin (- (2 / 2 ^ 63)) \<and>
   isl (compute_summary wide_matches) = False"
proof -
  have t: "total first_serve_in wide_matches = 2" "total first_serve_total wide_matches = 2 ^ 63"
    by (simp_all add: total_def wide_matches_def wide_match_def)
  have c: "sint (column_sum first_serve_in wide_matches) = 2"
    "sint (column_sum first_serve_total wide_matches) = - (2 ^ 63)"
    unfolding column_sum_total t by (simp_all add: sint_sbintrunc')
  have s: "safe_div (PyInt 2) (PyInt (2 ^ 63)) = Inr (Fin (2 / 2 ^ 63))"
    by (simp add: safe_div_int float_range_small int_rate_def)
  show ?thesis
    unfolding compute_summary_eq [OF wide_matches_length] c
    using t s by (simp add: int_rate_def)
qed

text \<open>
  C1, amended. For every table, each of the four season rates that \<open>compute_summary\<close>
  returns is the safe quotient of the sum of its numerator column and the sum of its
  denominator column, the sums being taken in 64-bit arithmetic; they are the sums of the
  counters over all records whenever those fit in 64 bits. A summary is returned for
  every table of fewer than \<open>2^63\<close> rows. On the two matches of the unit test, whose
  denominators differ, the season rate of first serves is 7/11 while the mean of the two
  per-match rates is 13/20; the other three rates differ from the mean of the per-match
  rates as well.
\<close>

theorem season_rates_from_totals:
  "(length df < 2 ^ 63 \<longrightarrow> (\<exists>s. compute_summary df = Inr s)) \<and>
   (compute_summary df = Inr s \<longrightarrow>
      safe_div (PyInt (sint (column_sum first_serve_in df)))
               (PyInt (sint (column_sum first_serve_total df))) = Inr (first_serve_pct s) \<and>
      safe_div (PyInt (sint (column_sum first_serve_points_won df)))
               (PyInt (sint (column_sum first_serve_points_total df))) =
        Inr (first_serve_pts_won_pct s) \<and>
      safe_div (PyInt (sint (column_sum second_serve_points_won df)))
               (PyInt (sint (column_sum second_serve_points_total df))) =
        Inr (second_serve_pts_won_pct s) \<and>
      safe_div (PyInt (sint (column_sum break_points_saved df)))
               (PyInt (sint (column_sum break_points_faced df))) =
        Inr (break_points_saved_pct s) \<and>
      (int64_range (total first_serve_in df) \<and> int64_range (total first_serve_total df) \<longrightarrow>
         safe_div (PyInt (total first_serve_in df)) (PyInt (total first_serve_total df)) =
           Inr (first_serve_pct s)) \<and>
      (int64_range (total first_serve_points_won df) \<and>
       int64_range (total first_serve_points_total df) \<longrightarrow>
         safe_div (PyInt (total first_serve_points_won df))
                  (PyInt (total first_serve_points_total df)) =
           Inr (first_serve_pts_won_pct s)) \<and>
      (int64_range (total second_serve_points_won df) \<and>
       int64_range (total second_serve_points_total df) \<longrightarrow>
         safe_div (PyInt (total second_serve_points_won df))
                  (PyInt (total second_serve_points_total df)) =
           Inr (second_serve_pts_won_pct s)) \<and>
      (int64_range (total break_points_saved df) \<and> int64_range (total break_points_faced df) \<longrightarrow>
         safe_div (PyInt (total break_points_saved df)) (PyInt (total break_points_faced df)) =
           Inr (break_points_saved_pct s))) \<and>
   (length two_matches = 2 \<and>
    first_serve_total (two_matches ! 0) \<noteq> first_serve_total (two_matches ! 1) \<and>
    (\<exists>s. compute_summary two_matches = Inr s \<and>
       first_serve_pct s = Fin (7 / 11) \<and>
       mean_of_match_rates first_serve_in first_serve_total two_matches = 13 / 20 \<and>
       first_serve_pct s \<noteq> Fin (mean_of_match_rates first_serve_in first_serve_total two_matches) \<and>
       first_serve_pts_won_pct s \<noteq>
         Fin (mean_of_match_rates first_serve_points_won first_serve_points_total two_matches) \<and>
       second_serve_pts_won_pct s \<noteq>
         Fin (mean_of_match_rates second_serve_points_won second_serve_points_total two_matches) \<and>
       break_points_saved_pct s \<noteq>
         Fin (mean_of_match_rates break_points_saved break_points_faced two_matches)))"
proof (intro conjI impI)
  assume "length df < 2 ^ 63"
  then show "\<exists>s. compute_summary df = Inr s"
    by (simp add: compute_summary_eq float_range_length)
next
  assume c: "compute_summary df = Inr s"
  note e = compute_summary_eq [OF compute_summary_Inr_range [OF c]]
  from c have s: "first_serve_pct s = int_rate (sint (column_sum first_serve_in df))
        (sint (column_sum first_serve_total df))"
    "first_serve_pts_won_pct s = int_rate (sint (column_sum first_serve_points_won df))
        (sint (column_sum first_serve_points_total df))"
    "second_serve_pts_won_pct s = int_rate (sint (column_sum second_serve_points_won df))
        (sint (column_sum second_serve_points_total df))"
    "break_points_saved_pct s = int_rate (sint (column_sum break_points_saved df))
        (sint (column_sum break_points_faced df))"
    unfolding e by auto
  show "safe_div (PyInt (sint (column_sum first_serve_in df)))
               (PyInt (sint (column_sum first_serve_total df))) = Inr (first_serve_pct s)"
    by (simp add: s safe_div_int float_range_sint)
  show "safe_div (PyInt (sint (column_sum first_serve_points_won df)))
               (PyInt (sint (column_sum first_serve_points_total df))) =
        Inr (first_serve_pts_won_pct s)"
    by (simp add: s safe_div_int float_range_sint)
  show "safe_div (PyInt (sint (column_sum second_serve_points_won df)))
               (PyInt (sint (column_sum second_serve_points_total df))) =
        Inr (second_serve_pts_won_pct s)"
    by (simp add: s safe_div_int float_range_sint)
  show "safe_div (PyInt (sint (column_sum break_points_saved df)))
               (PyInt (sint (column_sum break_points_faced df))) =
        Inr (break_points_saved_pct s)"
    by (simp add: s safe_div_int float_range_sint)
  {
    assume "int64_range (total first_serve_in df) \<and> int64_range (total first_serve_total df)"
    then have "sint (column_sum first_serve_in df) = total first_serve_in df"
      "sint (column_sum first_serve_total df) = total first_serve_total df"
      by (simp_all add: sint_column_sum)
    then show "safe_div (PyInt (total first_serve_in df)) (PyInt (total first_serve_total df)) =
           Inr (first_serve_pct s)"
      by (metis s(1) safe_div_int float_range_sint)
  }
  {
    assume "int64_range (total first_serve_points_won df) \<and>
       int64_range (total first_serve_points_total df)"
    then have "sint (column_sum first_serve_points_won df) = total first_serve_points_won df"
      "sint (column_sum first_serve_points_total df) = total first_serve_points_total df"
      by (simp_all add: sint_column_sum)
    then show "safe_div (PyInt (total first_serve_points_won df))
                  (PyInt (total first_serve_points_total df)) =
           Inr (first_serve_pts_won_pct s)"
      by (metis s(2) safe_div_int float_range_sint)
  }
  {
    assume "int64_range (total second_serve_points_won df) \<and>
       int64_range (total second_serve_points_total df)"
    then have "sint (column_sum second_serve_points_won df) = total second_serve_points_won df"
      "sint (column_sum second_serve_points_total df) = total second_serve_points_total df"
      by (simp_all add: sint_column_sum)
    then show "safe_div (PyInt (total second_serve_points_won df))
                  (PyInt (total second_serve_points_total df)) =
           Inr (second_serve_pts_won_pct s)"
      by (metis s(3) safe_div_int float_range_sint)
  }
  {
    assume "int64_range (total break_points_saved df) \<and> int64_range (total break_points_faced df)"
    then have "sint (column_sum break_points_saved df) = total break_points_saved df"
      "sint (column_sum break_points_faced df) = total break_points_faced df"
      by (simp_all add: sint_column_sum)
    then show "safe_div (PyInt (total break_points_saved df)) (PyInt (total break_points_faced df)) =
           Inr (break_points_saved_pct s)"
      by (metis s(4) safe_div_int float_range_sint)
  }
next
  show "length two_matches = 2" by (simp add: two_matches_def)
next
  show "first_serve_total (two_matches ! 0) \<noteq> first_serve_total (two_matches ! 1)"
    by (simp add: two_matches_def)
next
  have m: "mean_of_match_rates first_serve_in first_serve_total two_matches = 13 / 20"
    by (simp add: mean_of_match_rates_def per_match_rate_def two_matches_def)
  show "\<exists>s. compute_summary two_matches = Inr s \<and>
       first_serve_pct s = Fin (7 / 11) \<and>
       mean_of_match_rates first_serve_in first_serve_total two_matches = 13 / 20 \<and>
       first_serve_pct s \<noteq> Fin (mean_of_match_rates first_serve_in first_serve_total two_matches) \<and>
       first_serve_pts_won_pct s \<noteq>
         Fin (mean_of_match_rates first_serve_points_won first_serve_points_total two_matches) \<and>
       second_serve_pts_won_pct s \<noteq>
         Fin (mean_of_match_rates second_serve_points_won second_serve_points_total two_matches) \<and>
       break_points_saved_pct s \<noteq>
         Fin (mean_of_match_rates break_points_saved break_points_faced two_matches)"
    unfolding m compute_summary_eq [OF two_matches_length]
    by (simp add: mean_of_match_rates_def per_match_rate_def column_sum_def two_matches_def
        int_rate_def)
qed

theorem season_rates_from_totals_witness:
  "length two_matches < 2 ^ 63 \<and>
   int64_range (total first_serve_in two_matches) \<and>
   int64_range (total first_serve_total two_matches) \<and>
   total first_serve_in two_matches = 70 \<and> total first_serve_total two_matches = 110 \<and>
   safe_div (PyInt 70) (PyInt 110) = Inr (Fin (7 / 11)) \<and>
   (\<exists>s. compute_summary two_matches = Inr s \<and> first_serve_pct s = Fin (7 / 11))"
proof -
  have l: "length two_matches < 2 ^ 63" by (simp add: two_matches_def)
  have t: "total first_serve_in two_matches = 70" "total first_serve_total two_matches = 110"
    by (simp_all add: total_def two_matches_def)
  have r: "int64_range (total first_serve_in two_matches)"
    "int64_range (total first_serve_total two_matches)"
    unfolding t by (simp_all add: int64_range_def)
  have d: "safe_div (PyInt 70) (PyInt 110) = Inr (Fin (7 / 11))"
    by (simp add: safe_div_int float_range_small int_rate_def)
  from season_rates_from_totals [of two_matches] l obtain s
    where s: "compute_summary two_matches = Inr s" by blast
  from season_rates_from_totals [of two_matches s] s r
  have "safe_div (PyInt (total first_serve_in two_matches))
      (PyInt (total first_serve_total two_matches)) = Inr (first_serve_pct s)"
    by blast
  then have "first_serve_pct s = Fin (7 / 11)" unfolding t d by simp
  with s l r t d show ?thesis by blast
qed

lemma mset_eq_sum_list:
  fixes f :: "'a \<Rightarrow> 'b::comm_monoid_add"
  assumes "mset xs = mset ys"
  shows "sum_list (map f xs) = sum_list (map f ys)"
proof -
  have "sum_list (map f xs) = sum_mset (image_mset f (mset xs))"
    by (simp flip: sum_mset_sum_list)
  also have "\<dots> = sum_mset (image_mset f (mset ys))"
    by (simp only: assms)
  also have "\<dots> = sum_list (map f ys)"
    by (simp flip: sum_mset_sum_list)
  finally show ?thesis .
qed

lemma mset_eq_column_sum: "mset df = mset df' \<Longrightarrow> column_sum col df = column_sum col df'"
  unfolding column_sum_def by (rule mset_eq_sum_list)

lemma mset_eq_count_result:
  assumes "mset df = mset df'"
  shows "count_result v df = count_result v df'"
proof -
  have "length (filter (\<lambda>r. result r = v) df) = size (filter_mset (\<lambda>r. result r = v) (mset df))"
    by (simp flip: mset_filter)
  also have "\<dots> = size (filter_mset (\<lambda>r. result r = v) (mset df'))"
    by (simp only: assms)
  also have "\<dots> = length (filter (\<lambda>r. result r = v) df')"
    by (simp flip: mset_filter)
  finally show ?thesis by (simp add: count_result_def)
qed

lemma mset_eq_column_mean:
  assumes "mset df = mset df'"
  shows "column_mean col df = column_mean col df'"
proof -
  have l: "length df = length df'" using assms by (rule mset_eq_length)
  have s: "sum_list (map (\<lambda>r. sint (col r)) df) = sum_list (map (\<lambda>r. sint (col r)) df')"
    using assms by (rule mset_eq_sum_list)
  have n: "df = [] \<longleftrightarrow> df' = []" using l by auto
  show ?thesis unfolding column_mean_def s l n ..
qed

text \<open>
  C9. Two tables with the same rows, in whatever order, have the same summary.
\<close>

theorem compute_summary_permutation:
  "mset df = mset df' \<Longrightarrow> compute_summary df = compute_summary df'"
proof -
  assume eq: "mset df = mset df'"
  have len: "length df = length df'" using eq by (rule mset_eq_length)
  have cs: "column_sum col df = column_sum col df'" for col
    using eq by (rule mset_eq_column_sum)
  have cr: "count_result v df = count_result v df'" for v
    using eq by (rule mset_eq_count_result)
  have cm: "column_mean col df = column_mean col df'" for col
    using eq by (rule mset_eq_column_mean)
  show ?thesis
    unfolding compute_summary_def len cs cr cm ..
qed

theorem compute_summary_permutation_witness:
  "mset two_matches = mset (rev two_matches) \<and> two_matches \<noteq> rev two_matches \<and>
   compute_summary two_matches = compute_summary (rev two_matches)"
proof -
  have m: "mset two_matches = mset (rev two_matches)" by simp
  have "result (two_matches ! 0) \<noteq> result (rev two_matches ! 0)"
    by (simp add: two_matches_def py_str_def)
  then have n: "two_matches \<noteq> rev two_matches" by auto
  from compute_summary_permutation [OF m] m n show ?thesis by blast
qed

lemma count_W_L:
  "length (filter (\<lambda>r. result r = Text (py_str ''W'')) df) +
   length (filter (\<lambda>r. result r = Text (py_str ''L'')) df) =
   length (filter (\<lambda>r. result r = Text (py_str ''W'') \<or> result r = Text (py_str ''L'')) df)"
  by (induction df) (auto simp: py_str_def)

text \<open>
  C10. In every summary, \<open>wins\<close> is the number of rows whose result is \<open>W\<close> and
  \<open>losses\<close> the number of rows whose result is \<open>L\<close>; no row counts for both, their sum
  is at most \<open>matches\<close>, and it is \<open>matches\<close> when every result is \<open>W\<close> or \<open>L\<close>. A summary
  is returned for every table of fewer than \<open>2^63\<close> rows.
\<close>

theorem wins_losses_bound:
  "(length df < 2 ^ 63 \<longrightarrow> (\<exists>s. compute_summary df = Inr s)) \<and>
   (compute_summary df = Inr s \<longrightarrow>
     matches s = int (length df) \<and>
     wins s = int (card {i. i < length df \<and> result (df ! i) = Text (py_str ''W'')}) \<and>
     losses s = int (card {i. i < length df \<and> result (df ! i) = Text (py_str ''L'')}) \<and>
     {i. i < length df \<and> result (df ! i) = Text (py_str ''W'')} \<inter>
       {i. i < length df \<and> result (df ! i) = Text (py_str ''L'')} = {} \<and>
     wins s + losses s \<le> matches s \<and>
     ((\<forall>r \<in> set df. result r = Text (py_str ''W'') \<or> result r = Text (py_str ''L'')) \<longrightarrow>
        wins s + losses s = matches s))"
proof (intro conjI impI)
  assume "length df < 2 ^ 63"
  then show "\<exists>s. compute_summary df = Inr s"
    by (simp add: compute_summary_eq float_range_length)
next
  assume c: "compute_summary df = Inr s"
  let ?W = "{i. i < length df \<and> result (df ! i) = Text (py_str ''W'')}"
  let ?L = "{i. i < length df \<and> result (df ! i) = Text (py_str ''L'')}"
  have w: "count_result (Text (py_str ''W'')) df = int (card ?W)"
    and l: "count_result (Text (py_str ''L'')) df = int (card ?L)"
    by (simp_all add: count_result_def length_filter_conv_card)
  from c have s: "matches s = int (length df)" "wins s = int (card ?W)" "losses s = int (card ?L)"
    unfolding compute_summary_eq [OF compute_summary_Inr_range [OF c]] w l by auto
  have "card ?W + card ?L =
      length (filter (\<lambda>r. result r = Text (py_str ''W'') \<or> result r = Text (py_str ''L'')) df)"
    using count_W_L [of df] by (simp add: length_filter_conv_card)
  moreover have "length (filter (\<lambda>r. result r = Text (py_str ''W'') \<or>
      result r = Text (py_str ''L'')) df) \<le> length df"
    by (rule length_filter_le)
  moreover have "(\<forall>r \<in> set df. result r = Text (py_str ''W'') \<or> result r = Text (py_str ''L'')) \<Longrightarrow>
      length (filter (\<lambda>r. result r = Text (py_str ''W'') \<or> result r = Text (py_str ''L'')) df) =
      length df"
    by (simp add: filter_True)
  ultimately have le: "int (card ?W) + int (card ?L) \<le> int (length df)"
    and eq: "(\<forall>r \<in> set df. result r = Text (py_str ''W'') \<or> result r = Text (py_str ''L'')) \<Longrightarrow>
      int (card ?W) + int (card ?L) = int (length df)"
    by linarith+
  show "matches s = int (length df)" by (rule s)
  show "wins s = int (card ?W)" by (rule s)
  show "losses s = int (card ?L)" by (rule s)
  show "?W \<inter> ?L = {}" by (auto simp: py_str_def)
  show "wins s + losses s \<le> matches s" unfolding s by (rule le)
  {
    assume a: "\<forall>r \<in> set df. result r = Text (py_str ''W'') \<or> result r = Text (py_str ''L'')"
    show "wins s + losses s = matches s" unfolding s by (rule eq [OF a])
  }
qed

theorem wins_losses_bound_witness:
  "length two_matches < 2 ^ 63 \<and>
   list_all (\<lambda>r. result r = Text (py_str ''W'') \<or> result r = Text (py_str ''L'')) two_matches \<and>
   (\<exists>s. compute_summary two_matches = Inr s \<and> matches s = 2 \<and> wins s = 1 \<and> losses s = 1 \<and>
      wins s + losses s = matches s)"
proof -
  have n: "length two_matches < 2 ^ 63" by (simp add: two_matches_def)
  have h: "\<forall>r \<in> set two_matches. result r = Text (py_str ''W'') \<or> result r = Text (py_str ''L'')"
    by (simp add: two_matches_def)
  from wins_losses_bound [of two_matches] n obtain s
    where s: "compute_summary two_matches = Inr s" by blast
  have c: "count_result (Text (py_str ''W'')) two_matches = 1"
    "count_result (Text (py_str ''L'')) two_matches = 1" "int (length two_matches) = 2"
    by (simp_all add: count_result_def two_matches_def py_str_def)
  from s have v: "matches s = 2" "wins s = 1" "losses s = 1"
    unfolding compute_summary_eq [OF two_matches_length] c by auto
  from wins_losses_bound [of two_matches s] s h have "wins s + losses s = matches s" by blast
  with s v n h show ?thesis unfolding list_all_iff by blast
qed

subsection \<open>Loading\<close>

lemma result_with_date: "result (with_date r d) = result r"
  by (simp add: with_date_def)

lemma date_with_date: "date (with_date r d) = d"
  by (simp add: with_date_def)

lemma map_result_with_date:
  "length ds = length raw \<Longrightarrow> map result (map2 with_date raw ds) = map result raw"
  by (induction raw ds rule: list_induct2') (simp_all add: result_with_date)

lemma str_accessor_text:
  "raw = [] \<or> list_ex (\<lambda>r. is_Text (result r)) raw \<Longrightarrow>
   str_accessor (map result raw) = Inr (map result raw)"
  by (auto simp: str_accessor_def list_ex_iff)

lemma str_accessor_other:
  "raw \<noteq> [] \<Longrightarrow> \<not> list_ex (\<lambda>r. is_Text (result r)) raw \<Longrightarrow>
   str_accessor (map result raw) = Inl AttributeError"
  by (auto simp: str_accessor_def list_ex_iff)

lemma map2_normalize_row:
  "length ds = length raw \<Longrightarrow>
   map2 (\<lambda>r c. r\<lparr>result := c\<rparr>) (map2 with_date raw ds)
     (map (str_method str_strip) (map (str_method upper) (map result raw))) =
   map2 (normalize_row upper) raw ds"
  by (induction raw ds rule: list_induct2') (simp_all add: normalize_row_def)

lemma load_matches_Inr:
  assumes "to_datetime (map date raw) = Inr ds" and "length ds = length raw"
    and "raw = [] \<or> list_ex (\<lambda>r. is_Text (result r)) raw"
  shows "load_matches to_datetime upper sort_values raw =
     Inr (sort_values (map2 (normalize_row upper) raw ds))"
proof -
  have "load_matches to_datetime upper sort_values raw =
      and_then (str_accessor (map result (map2 with_date raw ds))) (\<lambda>column.
        Inr (sort_values (map2 (\<lambda>r c. r\<lparr>result := c\<rparr>) (map2 with_date raw ds)
          (map (str_method str_strip) (map (str_method upper) column)))))"
    unfolding load_matches_def assms(1) and_then_def Let_def by simp
  also have "\<dots> = Inr (sort_values (map2 (\<lambda>r c. r\<lparr>result := c\<rparr>) (map2 with_date raw ds)
          (map (str_method str_strip) (map (str_method upper) (map result raw)))))"
    unfolding map_result_with_date [OF assms(2)] str_accessor_text [OF assms(3)] and_then_def
    by simp
  also have "\<dots> = Inr (sort_values (map2 (normalize_row upper) raw ds))"
    unfolding map2_normalize_row [OF assms(2)] ..
  finally show ?thesis .
qed

lemma load_matches_AttributeError:
  assumes "to_datetime (map date raw) = Inr ds" and "length ds = length raw"
    and "raw \<noteq> []" and "\<not> list_ex (\<lambda>r. is_Text (result r)) raw"
  shows "load_matches to_datetime upper sort_values raw = Inl AttributeError"
proof -
  have "load_matches to_datetime upper sort_values raw =
      and_then (str_accessor (map result (map2 with_date raw ds))) (\<lambda>column.
        Inr (sort_values (map2 (\<lambda>r c. r\<lparr>result := c\<rparr>) (map2 with_date raw ds)
          (map (str_method str_strip) (map (str_method upper) column)))))"
    unfolding load_matches_def assms(1) and_then_def Let_def by simp
  then show ?thesis
    unfolding map_result_with_date [OF assms(2)] str_accessor_other [OF assms(3,4)] and_then_def
    by simp
qed

lemma normalize_row_nth:
  assumes "length ds = length raw" and "i < length raw"
  shows "map2 (normalize_row upper) raw ds ! i = normalize_row upper (raw ! i) (ds ! i)"
  using assms by simp

lemma result_normalize_row:
  "result (normalize_row upper r d) = str_method str_strip (str_method upper (result r))"
  by (simp add: normalize_row_def)

lemma date_normalize_row: "date (normalize_row upper r d) = d"
  by (simp add: normalize_row_def with_date_def)

lemma str_strip_idem: "str_strip (str_strip s) = str_strip s"
proof -
  define t where "t = dropWhile py_isspace s"
  define u where "u = rev (dropWhile py_isspace (rev t))"
  have u_take: "u = take (length t - length (takeWhile py_isspace (rev t))) t"
    unfolding u_def by (simp add: dropWhile_eq_drop rev_drop)
  have front: "dropWhile py_isspace u = u"
  proof (cases "u = []")
    case True
    then show ?thesis by simp
  next
    case False
    with u_take have "t \<noteq> []" and "hd u = hd t"
      by auto
    moreover from \<open>t \<noteq> []\<close> have "\<not> py_isspace (hd t)"
      unfolding t_def by (rule hd_dropWhile)
    ultimately show ?thesis by (simp add: dropWhile_eq_self_iff)
  qed
  have rear: "dropWhile py_isspace (rev u) = rev u"
    unfolding u_def by simp
  show ?thesis
    using front rear unfolding str_strip_def t_def [symmetric] u_def [symmetric] by simp
qed

lemma iso_dates:
  "iso_to_datetime ''2025-10-08'' = Inr (Timestamp 20251008)"
  "iso_to_datetime ''2025-09-01'' = Inr (Timestamp 20250901)"
  "iso_to_datetime ''2025-09-02'' = Inr (Timestamp 20250902)"
  "iso_to_datetime ''yesterday'' = Inl ParseError"
  "iso_to_datetime [] = Inr NaT"
  by (simp_all add: iso_to_datetime_def digit_val_def days_in_month_def)

lemma normalized_results:
  "str_strip (ascii_upper (py_str '' w'')) = py_str ''W''"
  "str_strip (ascii_upper (py_str ''l '')) = py_str ''L''"
  "str_strip (ascii_upper (py_str ''W'')) = py_str ''W''"
  "str_strip (ascii_upper (py_str '' x '')) = py_str ''X''"
  by (simp_all add: str_strip_def ascii_upper_def py_str_def py_isspace_def)

lemma normalize_table_row:
  "normalize_row upper (table_row d opp res) d' =
     table_row d' opp (str_method str_strip (str_method upper res))"
  by (simp add: normalize_row_def with_date_def table_row_def)

lemma date_table_row: "date (table_row d opp res) = d"
  by (simp add: table_row_def)

lemma result_table_row: "result (table_row d opp res) = res"
  by (simp add: table_row_def)

lemma raw_table_dates:
  "iso_column (map date raw_table) = Inr [Timestamp 20251008, Timestamp 20250901, Timestamp 20251008]"
  by (simp add: raw_table_def date_table_row iso_dates and_then_def)

lemma odd_table_dates: "iso_column (map date odd_table) = Inr [Timestamp 20251008]"
  by (simp add: odd_table_def date_table_row iso_dates and_then_def)

lemma raw_table_text: "raw_table = [] \<or> list_ex (\<lambda>r. is_Text (result r)) raw_table"
  by (simp add: raw_table_def result_table_row)

lemma odd_table_text: "odd_table = [] \<or> list_ex (\<lambda>r. is_Text (result r)) odd_table"
  by (simp add: odd_table_def result_table_row)

lemma load_raw_table:
  "load_matches iso_column ascii_upper short_sort raw_table = Inr loaded_table"
proof -
  have "load_matches iso_column ascii_upper short_sort raw_table =
      Inr (short_sort (map2 (normalize_row ascii_upper) raw_table
        [Timestamp 20251008, Timestamp 20250901, Timestamp 20251008]))"
    by (rule load_matches_Inr [where to_datetime = iso_column and raw = raw_table,
        OF raw_table_dates _ raw_table_text]) (simp add: raw_table_def)
  also have "\<dots> = Inr loaded_table"
    by (simp add: raw_table_def loaded_table_def normalize_table_row normalized_results
        short_sort_def date_table_row date_key_def)
  finally show ?thesis .
qed

text \<open>
  C8, as stated, fails: \<open>load_matches\<close> has no check of the result. A table whose one
  result is \<open>x\<close> between blanks is loaded, with the result \<open>X\<close>.
\<close>

theorem load_matches_no_validation_counterexample:
  "odd_table = [table_row (Some ''2025-10-08'') ''Ann'' (Text (py_str '' x ''))] \<and>
   load_matches iso_column ascii_upper short_sort odd_table =
     Inr [table_row (Timestamp 20251008) ''Ann'' (Text (py_str ''X''))] \<and>
   py_str ''X'' \<noteq> py_str ''W'' \<and> py_str ''X'' \<noteq> py_str ''L''"
proof (intro conjI)
  show "odd_table = [table_row (Some ''2025-10-08'') ''Ann'' (Text (py_str '' x ''))]"
    by (rule odd_table_def)
  have "load_matches iso_column ascii_upper short_sort odd_table =
      Inr (short_sort (map2 (normalize_row ascii_upper) odd_table [Timestamp 20251008]))"
    by (rule load_matches_Inr [where to_datetime = iso_column and raw = odd_table,
        OF odd_table_dates _ odd_table_text]) (simp add: odd_table_def)
  also have "\<dots> = Inr [table_row (Timestamp 20251008) ''Ann'' (Text (py_str ''X''))]"
    by (simp add: odd_table_def normalize_table_row normalized_results short_sort_def)
  finally show "load_matches iso_column ascii_upper short_sort odd_table =
     Inr [table_row (Timestamp 20251008) ''Ann'' (Text (py_str ''X''))]" .
  show "py_str ''X'' \<noteq> py_str ''W''" "py_str ''X'' \<noteq> py_str ''L''"
    by (simp_all add: py_str_def)
qed

text \<open>
  C8, amended. For every raw table whose date column parses and whose result column is
  text, \<open>load_matches\<close> replaces each text result by its upper-case form with the white
  space around it stripped (a result that is no text becomes the missing value) and
  returns the rows, sorted, whatever values that gives: the result is not validated and
  no validation error is raised.
\<close>

theorem load_matches_normalizes:
  assumes "to_datetime (map date raw) = Inr ds" and "length ds = length raw"
    and "raw = [] \<or> list_ex (\<lambda>r. is_Text (result r)) raw"
  shows "\<exists>df. load_matches to_datetime upper sort_values raw = Inr (sort_values df) \<and>
     length df = length raw \<and>
     (\<forall>i < length raw.
        date (df ! i) = ds ! i \<and>
        result (df ! i) =
          (case result (raw ! i) of Text s \<Rightarrow> Text (str_strip (upper s)) | _ \<Rightarrow> Missing) \<and>
        (\<forall>s. result (df ! i) = Text s \<longrightarrow> str_strip s = s))"
proof -
  let ?df = "map2 (normalize_row upper) raw ds"
  have l: "length ?df = length raw" using assms(2) by simp
  have r: "result (?df ! i) =
      (case result (raw ! i) of Text s \<Rightarrow> Text (str_strip (upper s)) | _ \<Rightarrow> Missing)"
    if "i < length raw" for i
    unfolding normalize_row_nth [OF assms(2) that] result_normalize_row
    by (cases "result (raw ! i)") simp_all
  have d: "date (?df ! i) = ds ! i" if "i < length raw" for i
    unfolding normalize_row_nth [OF assms(2) that] by (rule date_normalize_row)
  have t: "str_strip s = s" if "i < length raw" and "result (?df ! i) = Text s" for i s
    using that(2) unfolding r [OF that(1)]
    by (cases "result (raw ! i)") (auto simp: str_strip_idem)
  from load_matches_Inr [where to_datetime = to_datetime and raw = raw, OF assms] l r d t
  show ?thesis by blast
qed

theorem load_matches_normalizes_witness:
  "iso_column (map date raw_table) = Inr [Timestamp 20251008, Timestamp 20250901, Timestamp 20251008] \<and>
   length [Timestamp 20251008, Timestamp 20250901, Timestamp (20251008 :: nat)] = length raw_table \<and>
   list_ex (\<lambda>r. is_Text (result r)) raw_table \<and>
   map result raw_table = [Text (py_str '' w''), Text (py_str ''l ''), Text (py_str ''W'')] \<and>
   load_matches iso_column ascii_upper short_sort raw_table = Inr loaded_table \<and>
   map result loaded_table = [Text (py_str ''L''), Text (py_str ''W''), Text (py_str ''W'')]"
proof -
  have l: "length [Timestamp 20251008, Timestamp 20250901, Timestamp (20251008 :: nat)] =
      length raw_table"
    by (simp add: raw_table_def)
  have x: "list_ex (\<lambda>r. is_Text (result r)) raw_table"
    by (simp add: raw_table_def result_table_row)
  have r: "map result raw_table = [Text (py_str '' w''), Text (py_str ''l ''), Text (py_str ''W'')]"
    "map result loaded_table = [Text (py_str ''L''), Text (py_str ''W''), Text (py_str ''W'')]"
    by (simp_all add: raw_table_def loaded_table_def result_table_row)
  from load_matches_normalizes [where to_datetime = iso_column and raw = raw_table
      and upper = ascii_upper and sort_values = short_sort, OF raw_table_dates l raw_table_text]
    raw_table_dates l x r load_raw_table
  show ?thesis by blast
qed

subsection \<open>Lookup by date\<close>

lemma date_eq_NaT: "\<not> date_eq a NaT" "\<not> date_eq NaT b"
  by (cases a, simp_all) 

lemma date_eq_Timestamp: "date_eq a (Timestamp t) \<longleftrightarrow> a = Timestamp t"
  by (cases a) simp_all

lemma filter_first:
  assumes "i < length df" and "P (df ! i)" and "\<forall>j < i. \<not> P (df ! j)"
  shows "\<exists>rest. filter P df = df ! i # rest"
proof -
  have "df = take i df @ df ! i # drop (Suc i) df"
    using assms(1) by (rule id_take_nth_drop)
  moreover have "filter P (take i df) = []"
    using assms(1,3) by (auto simp: filter_empty_conv in_set_conv_nth)
  ultimately have "filter P df = df ! i # filter P (drop (Suc i) df)"
    using assms(2) by (metis append_Nil filter.simps(2) filter_append)
  then show ?thesis by blast
qed

text \<open>
  C7, as stated, fails: the empty string is no date, and the parser turns it into the
  missing date NaT without raising, so that the answer is no row where the claim says a
  parse error; and a row without a date is not found by it, although both dates are
  NaT.
\<close>

theorem find_match_by_date_counterexample:
  "iso_to_datetime [] = Inr NaT \<and>
   find_match_by_date iso_to_datetime loaded_table [] = Inr None \<and>
   date (undated_table ! 1) = NaT \<and>
   find_match_by_date iso_to_datetime undated_table [] = Inr None"
  by (simp add: find_match_by_date_def iso_dates and_then_def date_eq_NaT undated_table_def
      date_table_row)

text \<open>
  C7, amended. \<open>find_match_by_date\<close> raises the error of the parser when the parser
  raises on the date string. When the parser returns the missing date NaT (as it does
  for the empty string) the answer is no row. When it returns a time stamp, the answer
  is no row (not an error) if no row of the table has that date, and otherwise the
  first row of the table, in stored order, that has it.
\<close>

theorem find_match_by_date_correct:
  "(to_datetime date_str = Inl e \<longrightarrow> find_match_by_date to_datetime df date_str = Inl e) \<and>
   (to_datetime date_str = Inr NaT \<longrightarrow> find_match_by_date to_datetime df date_str = Inr None) \<and>
   (to_datetime date_str = Inr (Timestamp t) \<longrightarrow>
      ((\<forall>r \<in> set df. date r \<noteq> Timestamp t) \<longrightarrow>
         find_match_by_date to_datetime df date_str = Inr None) \<and>
      (i < length df \<and> date (df ! i) = Timestamp t \<and> (\<forall>j < i. date (df ! j) \<noteq> Timestamp t) \<longrightarrow>
         find_match_by_date to_datetime df date_str = Inr (Some (df ! i))))"
proof (intro conjI impI)
  assume "to_datetime date_str = Inl e"
  then show "find_match_by_date to_datetime df date_str = Inl e"
    by (simp add: find_match_by_date_def and_then_def)
next
  assume "to_datetime date_str = Inr NaT"
  then show "find_match_by_date to_datetime df date_str = Inr None"
    by (simp add: find_match_by_date_def and_then_def date_eq_NaT)
next
  assume d: "to_datetime date_str = Inr (Timestamp t)"
    and "\<forall>r \<in> set df. date r \<noteq> Timestamp t"
  then have "filter (\<lambda>r. date_eq (date r) (Timestamp t)) df = []"
    by (simp add: filter_empty_conv date_eq_Timestamp)
  with d show "find_match_by_date to_datetime df date_str = Inr None"
    by (simp add: find_match_by_date_def and_then_def)
next
  assume d: "to_datetime date_str = Inr (Timestamp t)"
    and i: "i < length df \<and> date (df ! i) = Timestamp t \<and> (\<forall>j < i. date (df ! j) \<noteq> Timestamp t)"
  then obtain rest where "filter (\<lambda>r. date_eq (date r) (Timestamp t)) df = df ! i # rest"
    using filter_first [of i df "\<lambda>r. date_eq (date r) (Timestamp t)"]
    by (auto simp: date_eq_Timestamp)
  with d show "find_match_by_date to_datetime df date_str = Inr (Some (df ! i))"
    by (simp add: find_match_by_date_def iloc0_def and_then_def)
qed

theorem find_match_by_date_correct_witness:
  "iso_to_datetime ''yesterday'' = Inl ParseError \<and>
   find_match_by_date iso_to_datetime loaded_table ''yesterday'' = Inl ParseError \<and>
   iso_to_datetime [] = Inr NaT \<and>
   find_match_by_date iso_to_datetime undated_table [] = Inr None \<and>
   iso_to_datetime ''2025-09-02'' = Inr (Timestamp 20250902) \<and>
   list_all (\<lambda>r. date r \<noteq> Timestamp 20250902) loaded_table \<and>
   find_match_by_date iso_to_datetime loaded_table ''2025-09-02'' = Inr None \<and>
   iso_to_datetime ''2025-10-08'' = Inr (Timestamp 20251008) \<and>
   date (loaded_table ! 0) \<noteq> Timestamp 20251008 \<and>
   date (loaded_table ! 1) = Timestamp 20251008 \<and>
   date (loaded_table ! 2) = Timestamp 20251008 \<and>
   find_match_by_date iso_to_datetime loaded_table ''2025-10-08'' =
     Inr (Some (table_row (Timestamp 20251008) ''Ann'' (Text (py_str ''W''))))"
proof -
  note a = iso_dates(4) and b = iso_dates(3) and c = iso_dates(1) and z = iso_dates(5)
  have n: "\<forall>r \<in> set loaded_table. date r \<noteq> Timestamp 20250902"
    by (simp add: loaded_table_def date_table_row)
  have f: "1 < length loaded_table \<and> date (loaded_table ! 1) = Timestamp 20251008 \<and>
      (\<forall>j < 1. date (loaded_table ! j) \<noteq> Timestamp 20251008)"
    by (simp add: loaded_table_def date_table_row)
  have g: "date (loaded_table ! 0) \<noteq> Timestamp 20251008"
    "date (loaded_table ! 2) = Timestamp 20251008"
    "loaded_table ! 1 = table_row (Timestamp 20251008) ''Ann'' (Text (py_str ''W''))"
    by (simp_all add: loaded_table_def date_table_row)
  from find_match_by_date_correct [of iso_to_datetime "''yesterday''" ParseError loaded_table]
    find_match_by_date_correct [of iso_to_datetime "[]" _ undated_table]
    find_match_by_date_correct [of iso_to_datetime "''2025-09-02''" _ loaded_table 20250902]
    find_match_by_date_correct [of iso_to_datetime "''2025-10-08''" _ loaded_table 20251008 1]
    a b c z n f g
  show ?thesis
    by (simp add: list_all_iff)
qed

end
